theory Spec2Isabelle
  imports Main
begin

section \<open>Python strings\<close>

text \<open>
  A Python \<open>str\<close> is modelled as a \<open>string\<close> whose characters are the code points below
  256; \<open>length\<close> therefore counts characters, as Python's \<open>len\<close> does. The functions
  below are the \<open>str\<close> methods the tool handlers of \<open>MCP.py\<close> call.
\<close>

definition isspace :: "char \<Rightarrow> bool" where
  \<comment> \<open>the characters below 256 that \<open>str.isspace\<close> accepts, hence that \<open>strip()\<close> removes\<close>
  "isspace c = (c \<in> set [CHR 0x09, CHR 0x0A, CHR 0x0B, CHR 0x0C, CHR 0x0D, CHR 0x1C, CHR 0x1D,
       CHR 0x1E, CHR 0x1F, CHR '' '', CHR 0x85, CHR 0xA0])"

definition isupper :: "char \<Rightarrow> bool" where
  \<comment> \<open>\<open>A\<close>..\<open>Z\<close> and the upper-case letters of Latin-1 (0xC0..0xDE without the sign 0xD7)\<close>
  "isupper c = (let n = (of_char c :: nat) in
     (65 \<le> n \<and> n \<le> 90) \<or> (192 \<le> n \<and> n \<le> 222 \<and> n \<noteq> 215))"

definition lower_char :: "char \<Rightarrow> char" where
  \<comment> \<open>the lower-case letter is 32 above the upper-case one: bit 5 is set\<close>
  "lower_char c = (if isupper c
     then (case c of Char b0 b1 b2 b3 b4 b5 b6 b7 \<Rightarrow> Char b0 b1 b2 b3 b4 True b6 b7)
     else c)"

definition lower :: "string \<Rightarrow> string" where
  "lower s = map lower_char s"

definition lstrip :: "string \<Rightarrow> string" where
  "lstrip s = dropWhile isspace s"

definition strip :: "string \<Rightarrow> string" where
  "strip s = rev (dropWhile isspace (rev (lstrip s)))"

definition rstrip :: "char \<Rightarrow> string \<Rightarrow> string" where
  \<comment> \<open>\<open>s.rstrip(c)\<close> for a one-character argument: every trailing \<open>c\<close> goes\<close>
  "rstrip c s = rev (dropWhile (\<lambda>x. x = c) (rev s))"

definition startswith :: "string \<Rightarrow> string \<Rightarrow> bool" where
  "startswith s p = (take (length p) s = p)"

fun contains :: "string \<Rightarrow> string \<Rightarrow> bool" where
  \<comment> \<open>\<open>sub in s\<close>\<close>
  "contains sub [] = (sub = [])"
| "contains sub (c # cs) = (startswith (c # cs) sub \<or> contains sub cs)"

fun split_str :: "char \<Rightarrow> string \<Rightarrow> string list" where
  \<comment> \<open>\<open>s.split(sep)\<close> for a one-character separator: one more segment than separators\<close>
  "split_str sep [] = [[]]"
| "split_str sep (c # cs) =
     (if c = sep then [] # split_str sep cs
      else (case split_str sep cs of
              [] \<Rightarrow> [[c]]
            | seg # segs \<Rightarrow> (c # seg) # segs))"

fun join :: "string \<Rightarrow> string list \<Rightarrow> string" where
  \<comment> \<open>\<open>sep.join(xs)\<close>\<close>
  "join sep [] = []"
| "join sep [x] = x"
| "join sep (x # y # ys) = x @ sep @ join sep (y # ys)"

definition slice_to :: "'a list \<Rightarrow> int \<Rightarrow> 'a list" where
  \<comment> \<open>\<open>xs[:n]\<close>: a negative \<open>n\<close> counts from the end\<close>
  "slice_to xs n = (if 0 \<le> n then take (nat n) xs else take (nat (int (length xs) + n)) xs)"

fun str_nat :: "nat \<Rightarrow> string" where
  "str_nat n = (if n < 10 then [''0123456789'' ! n]
                else str_nat (n div 10) @ [''0123456789'' ! (n mod 10)])"

declare str_nat.simps [simp del]

definition str_int :: "int \<Rightarrow> string" where
  \<comment> \<open>\<open>str(i)\<close>, which is also what an f-string writes for \<open>{i}\<close>\<close>
  "str_int i = (if i < 0 then CHR ''-'' # str_nat (nat (- i)) else str_nat (nat i))"

section \<open>The tool handlers \<open>echo\<close> and \<open>summarize\<close>\<close>

definition echo :: "string \<Rightarrow> int \<Rightarrow> string" where
  "echo text repeat0 =
     (let repeat1 = (if repeat0 < 1 then 1 else repeat0);
          repeat2 = (if repeat1 > 10 then 10 else repeat1);
          out = join '' '' (replicate (nat repeat2) text)
      in if length out \<le> 2000 then out else slice_to out 2000)"

definition summarize :: "string \<Rightarrow> int \<Rightarrow> string" where
  "summarize text max_sentences0 =
     (let s = map strip (filter (\<lambda>seg. strip seg \<noteq> []) (split_str CHR ''.'' text))
      in if s = [] then []
         else let max_sentences = (if max_sentences0 < 1 then 1 else max_sentences0)
              in join ''. '' (slice_to s max_sentences)
                 @ (if length (slice_to s max_sentences) > 0 then ''.'' else []))"

section \<open>Exceptions\<close>

text \<open>
  A Python exception that leaves a function is a value \<open>Inl e\<close> of the result; \<open>str_exn\<close> is
  \<open>str(e)\<close>, the message.
\<close>

datatype exn =
    RuntimeError string
  | ValueError string
  | OSError string
  | IndexError string
  | OperationalError string

fun str_exn :: "exn \<Rightarrow> string" where
  "str_exn (RuntimeError m) = m"
| "str_exn (ValueError m) = m"
| "str_exn (OSError m) = m"
| "str_exn (IndexError m) = m"
| "str_exn (OperationalError m) = m"

section \<open>Paths and the file system\<close>

text \<open>
  A \<open>pathlib\<close> POSIX path is its root (\<open>""\<close>, \<open>"/"\<close> or \<open>"//"\<close>) and its list of names.
  Parsing drops empty names and \<open>"."\<close>, and keeps \<open>".."\<close>. The pure operations
  (\<open>is_absolute\<close>, \<open>/\<close>, \<open>parents\<close>, \<open>==\<close>) are computed; what depends on the machine (the
  home directories, the resolution of symbolic links, the files) is a field of \<open>env\<close>.
\<close>

record path =
  proot :: string
  pnames :: "string list"

definition parse_path :: "string \<Rightarrow> path" where
  \<comment> \<open>\<open>pathlib.Path(s)\<close>\<close>
  "parse_path s =
     \<lparr>proot = (if startswith s ''//'' \<and> \<not> startswith s ''///'' then ''//''
               else if startswith s ''/'' then ''/'' else []),
      pnames = filter (\<lambda>x. x \<noteq> [] \<and> x \<noteq> ''.'') (split_str CHR ''/'' s)\<rparr>"

definition is_absolute :: "path \<Rightarrow> bool" where
  "is_absolute p = (proot p \<noteq> [])"

definition joinpath :: "path \<Rightarrow> path \<Rightarrow> path" where
  \<comment> \<open>\<open>a / b\<close>: a rooted \<open>b\<close> replaces \<open>a\<close>\<close>
  "joinpath a b = (if proot b \<noteq> [] then b else \<lparr>proot = proot a, pnames = pnames a @ pnames b\<rparr>)"

definition parents :: "path \<Rightarrow> path list" where
  \<comment> \<open>\<open>p.parents\<close>: the proper ancestors, nearest first\<close>
  "parents p = map (\<lambda>k. \<lparr>proot = proot p, pnames = take k (pnames p)\<rparr>) (rev [0..<length (pnames p)])"

record env =
  ROOT_DIR :: path
  gethomedir :: "string \<Rightarrow> string option"
  resolve :: "path \<Rightarrow> exn + path"
  path_exists :: "path \<Rightarrow> exn + bool"
  is_file :: "path \<Rightarrow> exn + bool"
  read_text :: "path \<Rightarrow> exn + string"

text \<open>
  \<open>Path.expanduser\<close> replaces a leading name \<open>~\<close> or \<open>~user\<close> of a path without root by the
  home directory (\<open>gethomedir env user\<close>, the user \<open>""\<close> being the current one) and raises
  \<open>RuntimeError\<close> when no home directory is known for it (the wording of the message has
  changed between Python versions, the exception has not).
\<close>

definition expanduser :: "env \<Rightarrow> path \<Rightarrow> exn + path" where
  "expanduser env p =
     (case pnames p of
        [] \<Rightarrow> Inr p
      | first # rest \<Rightarrow>
          if proot p = [] \<and> startswith first ''~'' then
            (case gethomedir env (drop 1 first) of
               None \<Rightarrow> Inl (RuntimeError ''Could not determine home directory.'')
             | Some userhome \<Rightarrow>
                 let homedir = (if rstrip CHR ''/'' userhome = [] then ''/''
                                else rstrip CHR ''/'' userhome)
                 in if startswith homedir ''~''
                    then Inl (RuntimeError ''Could not determine home directory.'')
                    else Inr \<lparr>proot = proot (parse_path homedir),
                              pnames = pnames (parse_path homedir) @ rest\<rparr>)
          else Inr p)"

text \<open>
  \<open>_safe_path\<close> (the name cannot start with an underscore here). The call of
  \<open>expanduser\<close> stands before the \<open>try\<close>: its exception leaves the function. The exception
  of \<open>resolve\<close> is caught and becomes \<open>None\<close>.
\<close>

definition safe_path :: "env \<Rightarrow> string \<Rightarrow> exn + path option" where
  "safe_path env path_str =
     (case expanduser env (parse_path path_str) of
        Inl e \<Rightarrow> Inl e
      | Inr p \<Rightarrow>
          (case resolve env (if is_absolute p then p else joinpath (ROOT_DIR env) p) of
             Inl e \<Rightarrow> Inr None
           | Inr p' \<Rightarrow>
               if ROOT_DIR env \<in> set (parents p') \<or> p' = ROOT_DIR env then Inr (Some p')
               else Inr None))"

text \<open>
  In \<open>read_file\<close> the tests \<open>p.exists()\<close> and \<open>p.is_file()\<close> stand before the \<open>try\<close> and are
  evaluated in this order, the second only when the first is true. \<open>Path.exists\<close> and
  \<open>Path.is_file\<close> answer \<open>False\<close> for a missing path and raise the \<open>OSError\<close> of any other
  failure (a directory that may not be searched, say), which then leaves \<open>read_file\<close>. Only
  \<open>read_text\<close> and the slice are inside the \<open>try\<close>.
\<close>

definition read_file :: "env \<Rightarrow> string \<Rightarrow> int \<Rightarrow> exn + string" where
  "read_file env path_str max_bytes =
     (case safe_path env path_str of
        Inl e \<Rightarrow> Inl e
      | Inr None \<Rightarrow> Inr []
      | Inr (Some p) \<Rightarrow>
          (case path_exists env p of
             Inl e \<Rightarrow> Inl e
           | Inr found \<Rightarrow>
               if \<not> found then Inr []
               else (case is_file env p of
                       Inl e \<Rightarrow> Inl e
                     | Inr regular \<Rightarrow>
                         if \<not> regular then Inr []
                         else (case read_text env p of
                                 Inr text \<Rightarrow> Inr (slice_to text max_bytes)
                               | Inl e \<Rightarrow> Inr (''ERROR: '' @ str_exn e)))))"

subsection \<open>A small machine to run the handlers on\<close>

text \<open>
  The root is \<open>/srv/app\<close>, the current user's home is \<open>/home/me\<close> and no other user is
  known. There are no symbolic links, so that resolving a path is making it absolute under
  the root, with a single leading slash, and removing its \<open>..\<close> names; a name that holds a NUL
  character makes the resolution fail. Every directory may be searched, so that the tests
  for existence never raise. The only file is \<open>/srv/app/notes.txt\<close>, which holds \<open>abc\<close>.
\<close>

fun collapse :: "string list \<Rightarrow> string list \<Rightarrow> string list" where
  "collapse acc [] = rev acc"
| "collapse acc (x # xs) = (if x = ''..'' then collapse (tl acc) xs else collapse (x # acc) xs)"

definition app_root :: path where
  "app_root = \<lparr>proot = ''/'', pnames = [''srv'', ''app'']\<rparr>"

definition notes_txt :: path where
  "notes_txt = \<lparr>proot = ''/'', pnames = [''srv'', ''app'', ''notes.txt'']\<rparr>"

definition app_env :: env where
  "app_env =
     \<lparr>ROOT_DIR = app_root,
      gethomedir = (\<lambda>user. if user = [] then Some ''/home/me'' else None),
      resolve = (\<lambda>p. if list_ex (\<lambda>name. CHR 0x00 \<in> set name) (pnames p)
                     then Inl (ValueError ''embedded null byte'')
                     else Inr \<lparr>proot = ''/'', pnames = collapse [] (pnames (joinpath app_root p))\<rparr>),
      path_exists = (\<lambda>p. Inr (p = app_root \<or> p = notes_txt)),
      is_file = (\<lambda>p. Inr (p = notes_txt)),
      read_text = (\<lambda>p. if p = notes_txt then Inr ''abc''
                         else Inl (OSError ''[Errno 21] Is a directory''))\<rparr>"

section \<open>The example database and \<open>query_db\<close>\<close>

text \<open>
  The store is the file \<open>mcp_example.db\<close>: absent (\<open>None\<close>) or a database, which maps a table
  name to its column names and rows. The storage engine is outside the program: what it
  answers to a statement is the parameter \<open>execute\<close> of \<open>query_db\<close>, a function from the
  database and the statement text to an exception or the fetched rows. A fetched row
  (\<open>aiosqlite.Row\<close>) is the list of its keys and values in column order. Opening the store
  is taken to succeed: a file that cannot be opened as a database is not among the stores
  modelled.
\<close>

datatype sqlval = SqlInt int | SqlText string | SqlNull

record table =
  tcolumns :: "string list"
  trows :: "sqlval list list"

type_synonym database = "string \<rightharpoonup> table"

type_synonym store = "database option"

type_synonym sqlrow = "(string \<times> sqlval) list"

type_synonym engine = "database \<Rightarrow> string \<Rightarrow> exn + sqlrow list"

record QueryResult =
  columns :: "string list"
  rows :: "sqlval list list"

definition ascii_lower :: "string \<Rightarrow> string" where
  "ascii_lower s = map (\<lambda>c. if 65 \<le> (of_char c :: nat) \<and> (of_char c :: nat) \<le> 90 then lower_char c else c) s"

definition row_get :: "sqlrow \<Rightarrow> string \<Rightarrow> exn + sqlval" where
  \<comment> \<open>\<open>r[c]\<close> for a column name: the first column of that name, compared without ASCII case\<close>
  "row_get r c =
     (case find (\<lambda>kv. ascii_lower (fst kv) = ascii_lower c) r of
        None \<Rightarrow> Inl (IndexError ''No item with that key'')
      | Some kv \<Rightarrow> Inr (snd kv))"

fun traverse :: "('a \<Rightarrow> exn + 'b) \<Rightarrow> 'a list \<Rightarrow> exn + 'b list" where
  \<comment> \<open>a list comprehension whose element expression may raise: the first exception ends it\<close>
  "traverse f [] = Inr []"
| "traverse f (x # xs) =
     (case f x of
        Inl e \<Rightarrow> Inl e
      | Inr y \<Rightarrow> (case traverse f xs of Inl e \<Rightarrow> Inl e | Inr ys \<Rightarrow> Inr (y # ys)))"

definition connect :: "store \<Rightarrow> store \<times> database" where
  \<comment> \<open>opening the file creates an empty database when the file is absent\<close>
  "connect st = (case st of None \<Rightarrow> (Some Map.empty, Map.empty) | Some db \<Rightarrow> (Some db, db))"

definition execute_fetch :: "engine \<Rightarrow> database \<Rightarrow> string \<Rightarrow> exn + QueryResult" where
  \<comment> \<open>the inner block of \<open>query_db\<close>: execute, fetch all rows, name the columns after the first row\<close>
  "execute_fetch execute db sql =
     (case execute db sql of
        Inl e \<Rightarrow> Inl e
      | Inr fetched \<Rightarrow>
          let cols = (case fetched of [] \<Rightarrow> [] | r0 # _ \<Rightarrow> map fst r0)
          in (case traverse (\<lambda>r. traverse (row_get r) cols) fetched of
                Inl e \<Rightarrow> Inl e
              | Inr data \<Rightarrow> Inr \<lparr>columns = cols, rows = data\<rparr>))"

definition query_db :: "engine \<Rightarrow> store \<Rightarrow> string \<Rightarrow> int \<Rightarrow> store \<times> (exn + QueryResult)" where
  "query_db execute st sql0 limit0 =
     (let sql = strip sql0 in
      if \<not> startswith (lower sql) ''select''
      then (st, Inl (ValueError ''Only SELECT queries are allowed.''))
      else
        let limit = (if limit0 \<le> 0 \<or> limit0 > 1000 then 100 else limit0);
            (st', db) = connect st;
            sql' = (if \<not> contains ''limit'' (lower sql)
                    then rstrip CHR '';'' sql @ '' LIMIT '' @ str_int limit
                    else sql)
        in (st', execute_fetch execute db sql'))"

definition default_limit :: int where
  \<comment> \<open>the default of the parameter \<open>limit\<close>\<close>
  "default_limit = 100"

subsection \<open>The initializer\<close>

definition create_table_users :: "database \<Rightarrow> database" where
  \<comment> \<open>\<open>CREATE TABLE users (id INTEGER PRIMARY KEY, name TEXT, messages INTEGER)\<close>\<close>
  "create_table_users db = db(''users'' \<mapsto> \<lparr>tcolumns = [''id'', ''name'', ''messages''], trows = []\<rparr>)"

definition next_rowid :: "table \<Rightarrow> int" where
  \<comment> \<open>an \<open>INTEGER PRIMARY KEY\<close> left out of an insert is one more than the largest in the table\<close>
  "next_rowid t = fold (\<lambda>r m. case r of SqlInt i # _ \<Rightarrow> max i m | _ \<Rightarrow> m) (trows t) 0 + 1"

definition insert_user :: "string \<times> int \<Rightarrow> database \<Rightarrow> database" where
  \<comment> \<open>\<open>INSERT INTO users (name, messages) VALUES (?,?)\<close>\<close>
  "insert_user u db =
     (case db ''users'' of
        None \<Rightarrow> db
      | Some t \<Rightarrow> db(''users'' \<mapsto>
          t\<lparr>trows := trows t @ [[SqlInt (next_rowid t), SqlText (fst u), SqlInt (snd u)]]\<rparr>))"

definition seed_users :: "(string \<times> int) list" where
  "seed_users = [(''alice'', 5), (''bob'', 3), (''carol'', 12), (''dave'', 0)]"

definition ensure_db :: "store \<Rightarrow> store" where
  \<comment> \<open>\<open>_ensure_db\<close>\<close>
  "ensure_db st =
     (case st of
        Some db \<Rightarrow> Some db
      | None \<Rightarrow> Some (fold insert_user seed_users (create_table_users Map.empty)))"

subsection \<open>An engine for one form of statement\<close>

text \<open>
  To run the handler on concrete statements, \<open>select_star_engine\<close> answers the statements
  \<open>SELECT * FROM name LIMIT n\<close> as the storage engine does: with the first \<open>n\<close> rows of the
  table, each keyed by the table's columns, or with the error for an unknown table. Any
  other statement is outside what it knows.
\<close>

definition isdigit :: "char \<Rightarrow> bool" where
  "isdigit c = (48 \<le> (of_char c :: nat) \<and> (of_char c :: nat) \<le> 57)"

definition nat_of_digits :: "string \<Rightarrow> nat" where
  "nat_of_digits ds = fold (\<lambda>c n. 10 * n + (of_char c - 48)) ds 0"

definition parse_select_star :: "string \<Rightarrow> (string \<times> nat) option" where
  "parse_select_star sql =
     (let rest = drop 14 sql;
          name = takeWhile (\<lambda>c. c \<noteq> CHR '' '') rest;
          lim = drop (length name) rest
      in if take 14 sql = ''SELECT * FROM '' \<and> name \<noteq> [] \<and> take 7 lim = '' LIMIT ''
            \<and> drop 7 lim \<noteq> [] \<and> list_all isdigit (drop 7 lim)
         then Some (name, nat_of_digits (drop 7 lim)) else None)"

definition table_rows :: "table \<Rightarrow> sqlrow list" where
  "table_rows t = map (zip (tcolumns t)) (trows t)"

definition select_star_engine :: engine where
  "select_star_engine db sql =
     (case parse_select_star sql of
        None \<Rightarrow> Inl (OperationalError ''statement outside the modelled form'')
      | Some (name, n) \<Rightarrow>
          (case db name of
             None \<Rightarrow> Inl (OperationalError (''no such table: '' @ name))
           | Some t \<Rightarrow> Inr (take n (table_rows t))))"

definition seed_result :: QueryResult where
  "seed_result =
     \<lparr>columns = [''id'', ''name'', ''messages''],
      rows = [[SqlInt 1, SqlText ''alice'', SqlInt 5], [SqlInt 2, SqlText ''bob'', SqlInt 3],
              [SqlInt 3, SqlText ''carol'', SqlInt 12], [SqlInt 4, SqlText ''dave'', SqlInt 0]]\<rparr>"

subsection \<open>Two more engines\<close>

text \<open>
  \<open>statement_engine\<close> answers every statement with one row that holds the statement text:
  run on it, \<open>query_db\<close> shows which text it has executed. \<open>select_engine\<close> answers,
  besides the statements of \<open>select_star_engine\<close>, the statements
  \<open>SELECT c1, c2 AS a FROM name LIMIT n\<close> whose columns are written as the table declares
  them: each row is keyed by the alias, or by the column where there is none, and an
  unknown column is the engine's error.
\<close>

definition statement_engine :: engine where
  "statement_engine db sql = Inr [[(''statement'', SqlText sql)]]"

definition words :: "string \<Rightarrow> string list" where
  "words s = filter (\<lambda>w. w \<noteq> []) (split_str CHR '' '' s)"

definition parse_item :: "string \<Rightarrow> (string \<times> string) option" where
  "parse_item item =
     (case words item of
        [c] \<Rightarrow> Some (c, c)
      | [c, kw, a] \<Rightarrow> if kw = ''AS'' then Some (c, a) else None
      | _ \<Rightarrow> None)"

definition parse_select_list :: "string \<Rightarrow> ((string \<times> string) list \<times> string \<times> nat) option" where
  "parse_select_list sql =
     (let ws = words sql;
          items = split_str CHR '','' (join '' '' (takeWhile (\<lambda>w. w \<noteq> ''FROM'') (drop 1 ws)))
      in case dropWhile (\<lambda>w. w \<noteq> ''FROM'') (drop 1 ws) of
           [kw_from, name, kw_limit, n] \<Rightarrow>
             if take 1 ws = [''SELECT''] \<and> kw_limit = ''LIMIT'' \<and> list_all isdigit n
             then (case those (map parse_item items) of
                     None \<Rightarrow> None
                   | Some its \<Rightarrow> Some (its, name, nat_of_digits n))
             else None
         | _ \<Rightarrow> None)"

definition select_columns :: "table \<Rightarrow> (string \<times> string) list \<Rightarrow> sqlrow list" where
  "select_columns t items =
     map (\<lambda>r. map (\<lambda>item. (snd item,
                            case map_of (zip (tcolumns t) r) (fst item) of
                              None \<Rightarrow> SqlNull
                            | Some v \<Rightarrow> v)) items)
         (trows t)"

definition select_engine :: engine where
  "select_engine db sql =
     (case parse_select_star sql of
        Some star \<Rightarrow> select_star_engine db sql
      | None \<Rightarrow>
          (case parse_select_list sql of
             None \<Rightarrow> Inl (OperationalError ''statement outside the modelled form'')
           | Some (items, name, n) \<Rightarrow>
               (case db name of
                  None \<Rightarrow> Inl (OperationalError (''no such table: '' @ name))
                | Some t \<Rightarrow>
                    (case find (\<lambda>item. fst item \<notin> set (tcolumns t)) items of
                       Some item \<Rightarrow> Inl (OperationalError (''no such column: '' @ fst item))
                     | None \<Rightarrow> Inr (take n (select_columns t items))))))"

section \<open>Properties of \<open>echo\<close> and \<open>summarize\<close>\<close>

lemma filter_map_strip:
  "map strip (filter (\<lambda>seg. strip seg \<noteq> []) segs) = filter (\<lambda>seg. seg \<noteq> []) (map strip segs)"
  by (induction segs) auto

lemma echo_clamped:
  "echo text repeat = take 2000 (join '' '' (replicate (nat (min (max repeat 1) 10)) text))"
proof -
  have "(if (if repeat < 1 then 1 else repeat) > 10 then 10
         else (if repeat < 1 then 1 else repeat)) = min (max repeat 1) 10"
    by auto
  then show ?thesis
    by (simp add: echo_def Let_def slice_to_def)
qed

lemma echo_hi_20: "echo ''hi'' 20 = ''hi hi hi hi hi hi hi hi hi hi''"
  by (simp add: echo_clamped eval_nat_numeral)

lemma echo_hi_0: "echo ''hi'' 0 = ''hi''"
  by (simp add: echo_clamped)

text \<open>
  C7. For every text and every integer repeat count, \<open>echo\<close> returns the text repeated
  \<open>min (max repeat 1) 10\<close> times, joined by single spaces and cut to its first 2000
  characters, so that the result never has more than 2000 characters; the handler has no
  failing branch. \<open>echo("hi", 20)\<close> is ten repetitions and \<open>echo("hi", 0)\<close> is one.
\<close>

theorem echo_spec:
  "echo text repeat = take 2000 (join '' '' (replicate (nat (min (max repeat 1) 10)) text))
   \<and> length (echo text repeat) \<le> 2000
   \<and> echo ''hi'' 20 = join '' '' (replicate 10 ''hi'')
   \<and> echo ''hi'' 20 = ''hi hi hi hi hi hi hi hi hi hi''
   \<and> echo ''hi'' 0 = ''hi''"
proof -
  have "join '' '' (replicate 10 ''hi'') = ''hi hi hi hi hi hi hi hi hi hi''"
    by (simp add: eval_nat_numeral)
  moreover have "length (echo text repeat) \<le> 2000"
    by (simp add: echo_clamped)
  ultimately show ?thesis
    using echo_clamped [of "text" repeat] echo_hi_20 echo_hi_0 by simp
qed

lemma summarize_segments:
  "summarize text n =
     (let segs = filter (\<lambda>seg. seg \<noteq> []) (map strip (split_str CHR ''.'' text))
      in if segs = [] then [] else join ''. '' (take (nat (max n 1)) segs) @ ''.'')"
proof -
  define segs where "segs = filter (\<lambda>seg. seg \<noteq> []) (map strip (split_str CHR ''.'' text))"
  have s: "map strip (filter (\<lambda>seg. strip seg \<noteq> []) (split_str CHR ''.'' text)) = segs"
    by (simp add: segs_def filter_map_strip)
  have m: "(if n < 1 then 1 else n) = max n 1"
    by auto
  have pos: "0 \<le> max n 1" "0 < nat (max n 1)"
    by auto
  show ?thesis
  proof (cases "segs = []")
    case True
    then show ?thesis
      by (simp add: summarize_def s segs_def [symmetric])
  next
    case False
    then have "0 < length (take (nat (max n 1)) segs)"
      using pos by (cases segs) (auto simp: take_Cons')
    with False show ?thesis
      using pos by (simp add: summarize_def s m slice_to_def Let_def segs_def [symmetric])
  qed
qed

lemma summarize_example: "summarize ''A. B. C. D.'' 2 = ''A. B.''"
  by (simp add: summarize_segments strip_def lstrip_def isspace_def eval_nat_numeral)

lemma summarize_empty: "summarize '''' 3 = ''''"
  by (simp add: summarize_segments strip_def lstrip_def)

text \<open>
  C8. For every text and every \<open>max_sentences\<close>, \<open>summarize\<close> splits the text at the
  periods, strips each segment, drops the empty ones, raises \<open>max_sentences\<close> to at least 1
  and returns the first \<open>max_sentences\<close> segments joined with \<open>". "\<close> and closed by a
  period, or the empty string when no segment is left; the handler has no failing branch.
  \<open>summarize("A. B. C. D.", 2)\<close> is \<open>"A. B."\<close> and \<open>summarize("", 3)\<close> is empty.
\<close>

theorem summarize_spec:
  "summarize text n =
     (let segs = filter (\<lambda>seg. seg \<noteq> []) (map strip (split_str CHR ''.'' text))
      in if segs = [] then [] else join ''. '' (take (nat (max n 1)) segs) @ ''.'')
   \<and> summarize ''A. B. C. D.'' 2 = ''A. B.''
   \<and> summarize '''' 3 = ''''"
  using summarize_segments [of "text" n] summarize_example summarize_empty by simp

section \<open>Properties of \<open>query_db\<close> and the initializer\<close>

lemma startswith_iff: "startswith s p \<longleftrightarrow> (\<exists>post. s = p @ post)"
  unfolding startswith_def
  by (metis append_eq_conv_conj append_take_drop_id)

lemma contains_iff: "contains sub s \<longleftrightarrow> (\<exists>pre post. s = pre @ sub @ post)"
proof (induction s)
  case Nil
  then show ?case by auto
next
  case (Cons c cs)
  show ?case
  proof
    assume "contains sub (c # cs)"
    then consider "startswith (c # cs) sub" | "contains sub cs" by auto
    then show "\<exists>pre post. c # cs = pre @ sub @ post"
    proof cases
      case 1
      then obtain post where "c # cs = sub @ post" by (auto simp: startswith_iff)
      then have "c # cs = [] @ sub @ post" by simp
      then show ?thesis by blast
    next
      case 2
      then obtain pre post where "cs = pre @ sub @ post" using Cons.IH by auto
      then have "c # cs = (c # pre) @ sub @ post" by simp
      then show ?thesis by blast
    qed
  next
    assume "\<exists>pre post. c # cs = pre @ sub @ post"
    then obtain pre post where eq: "c # cs = pre @ sub @ post" by auto
    show "contains sub (c # cs)"
    proof (cases pre)
      case Nil
      with eq have "startswith (c # cs) sub"
        unfolding startswith_iff by auto
      then show ?thesis by simp
    next
      case (Cons a pre')
      with eq have "cs = pre' @ sub @ post" by simp
      then show ?thesis using Cons.IH by auto
    qed
  qed
qed

lemma traverse_length: "traverse f xs = Inr ys \<Longrightarrow> length ys = length xs"
  by (induction xs arbitrary: ys) (auto split: sum.splits)

lemma traverse_nth: "traverse f xs = Inr ys \<Longrightarrow> i < length xs \<Longrightarrow> f (xs ! i) = Inr (ys ! i)"
proof (induction xs arbitrary: ys i)
  case Nil
  then show ?case by simp
next
  case (Cons x xs)
  then show ?case by (cases i) (auto split: sum.splits)
qed

lemma traverse_error: "traverse f xs = Inl e \<Longrightarrow> \<exists>x \<in> set xs. f x = Inl e"
  by (induction xs) (auto split: sum.splits)

lemma row_get_error: "row_get r c = Inl e \<Longrightarrow> e = IndexError ''No item with that key''"
  by (auto simp: row_get_def split: option.splits)

lemma query_db_rejected:
  "\<not> startswith (lower (strip sql)) ''select'' \<Longrightarrow>
   query_db execute st sql limit = (st, Inl (ValueError ''Only SELECT queries are allowed.''))"
  by (simp add: query_db_def)

lemma fst_connect: "fst (connect st) = Some (snd (connect st))"
  by (simp add: connect_def split: option.splits)

lemma query_db_accepted:
  "startswith (lower (strip sql)) ''select'' \<Longrightarrow>
   query_db execute st sql limit =
     (fst (connect st),
      execute_fetch execute (snd (connect st))
        (if contains ''limit'' (lower (strip sql)) then strip sql
         else rstrip CHR '';'' (strip sql) @ '' LIMIT ''
              @ str_int (if limit \<le> 0 \<or> 1000 < limit then 100 else limit)))"
  by (simp add: query_db_def Let_def split: prod.splits)

lemma query_db_keeps_store:
  "fst (query_db execute (Some db) sql limit) = Some db"
  by (cases "startswith (lower (strip sql)) ''select''")
     (simp_all add: query_db_accepted query_db_rejected connect_def)

lemma execute_fetch_aligned:
  assumes "execute_fetch execute db sql = Inr qr"
  shows "\<exists>fetched. execute db sql = Inr fetched
           \<and> length (rows qr) = length fetched
           \<and> columns qr = (case fetched of [] \<Rightarrow> [] | r0 # _ \<Rightarrow> map fst r0)
           \<and> (\<forall>i < length fetched. length (rows qr ! i) = length (columns qr)
                \<and> (\<forall>j < length (columns qr). row_get (fetched ! i) (columns qr ! j) = Inr (rows qr ! i ! j)))"
proof -
  from assms obtain fetched where f: "execute db sql = Inr fetched"
    by (auto simp: execute_fetch_def split: sum.splits)
  define cols where "cols = (case fetched of [] \<Rightarrow> [] | r0 # _ \<Rightarrow> map fst r0)"
  from assms f obtain data where
    d: "traverse (\<lambda>r. traverse (row_get r) cols) fetched = Inr data"
    and qr: "qr = \<lparr>columns = cols, rows = data\<rparr>"
    by (auto simp: execute_fetch_def cols_def Let_def split: sum.splits)
  have len: "length data = length fetched"
    using d by (rule traverse_length)
  have each: "traverse (row_get (fetched ! i)) cols = Inr (data ! i)" if "i < length fetched" for i
    using traverse_nth [OF d that] .
  have "length (data ! i) = length cols
        \<and> (\<forall>j < length cols. row_get (fetched ! i) (cols ! j) = Inr (data ! i ! j))"
    if "i < length fetched" for i
    using traverse_length [OF each [OF that]] traverse_nth [OF each [OF that]] by simp
  with f len qr show ?thesis
    by (auto simp: cols_def)
qed

lemma execute_fetch_error:
  assumes "execute_fetch execute db sql = Inl e"
  shows "execute db sql = Inl e \<or> e = IndexError ''No item with that key''"
proof (cases "execute db sql")
  case (Inl e')
  with assms show ?thesis by (simp add: execute_fetch_def)
next
  case (Inr fetched)
  with assms obtain cols where "traverse (\<lambda>r. traverse (row_get r) cols) fetched = Inl e"
    by (auto simp: execute_fetch_def Let_def split: sum.splits)
  then obtain r where "traverse (row_get r) cols = Inl e"
    by (auto dest: traverse_error)
  then obtain c where "row_get r c = Inl e"
    by (auto dest: traverse_error)
  then show ?thesis by (simp add: row_get_error)
qed

lemmas string_evals = strip_def lstrip_def isspace_def lower_def lower_char_def isupper_def
  startswith_def rstrip_def str_int_def str_nat.simps

lemma ensure_db_absent:
  "ensure_db None = Some [''users'' \<mapsto> \<lparr>tcolumns = [''id'', ''name'', ''messages''],
       trows = [[SqlInt 1, SqlText ''alice'', SqlInt 5], [SqlInt 2, SqlText ''bob'', SqlInt 3],
                [SqlInt 3, SqlText ''carol'', SqlInt 12], [SqlInt 4, SqlText ''dave'', SqlInt 0]]\<rparr>]"
  by (simp add: ensure_db_def seed_users_def create_table_users_def insert_user_def next_rowid_def)

lemma ensure_db_present: "ensure_db (Some db) = Some db"
  by (simp add: ensure_db_def)

lemma ensure_db_repeated: "0 < n \<Longrightarrow> (ensure_db ^^ n) None = ensure_db None"
proof (induction n)
  case 0
  then show ?case by simp
next
  case (Suc n)
  show ?case
  proof (cases n)
    case 0
    then show ?thesis by simp
  next
    case (Suc m)
    with Suc.IH have "(ensure_db ^^ n) None = ensure_db None" by simp
    then show ?thesis by (simp add: ensure_db_absent ensure_db_present)
  qed
qed

lemma select_users_statement:
  "startswith (lower (strip ''SELECT * FROM users'')) ''select''"
  "\<not> contains ''limit'' (lower (strip ''SELECT * FROM users''))"
  "rstrip CHR '';'' (strip ''SELECT * FROM users'') @ '' LIMIT '' @ str_int 100
     = ''SELECT * FROM users LIMIT 100''"
  by (simp_all add: string_evals)

lemma fetch_seed_rows:
  "execute db sql = Inr (take 100 (table_rows \<lparr>tcolumns = [''id'', ''name'', ''messages''],
       trows = [[SqlInt 1, SqlText ''alice'', SqlInt 5], [SqlInt 2, SqlText ''bob'', SqlInt 3],
                [SqlInt 3, SqlText ''carol'', SqlInt 12], [SqlInt 4, SqlText ''dave'', SqlInt 0]]\<rparr>))
   \<Longrightarrow> execute_fetch execute db sql = Inr seed_result"
  by (simp add: execute_fetch_def table_rows_def row_get_def ascii_lower_def seed_result_def)

lemma select_star_engine_users:
  "db ''users'' = Some t \<Longrightarrow>
   select_star_engine db ''SELECT * FROM users LIMIT 100'' = Inr (take 100 (table_rows t))"
  by (simp add: select_star_engine_def parse_select_star_def isdigit_def nat_of_digits_def)

text \<open>
  C2 (as amended). The initializer creates and seeds the table when the store is absent and
  leaves an existing store alone, so that after any positive number of starts from an absent
  store the store is the one the first start made. On it, with an engine that answers
  \<open>SELECT * FROM users LIMIT 100\<close> with the rows of the table, \<open>query_db("SELECT * FROM users")\<close>
  returns the columns \<open>id\<close>, \<open>name\<close>, \<open>messages\<close> (the name in the \<open>CREATE TABLE\<close>
  statement, not \<open>message_count\<close>) and the four seed rows, each once.
\<close>

theorem seeded_users_query:
  assumes engine: "\<And>db t. db ''users'' = Some t \<Longrightarrow>
             execute db ''SELECT * FROM users LIMIT 100'' = Inr (take 100 (table_rows t))"
      and starts: "0 < n"
  shows "ensure_db None \<noteq> None
         \<and> (ensure_db ^^ n) None = ensure_db None
         \<and> snd (query_db execute ((ensure_db ^^ n) None) ''SELECT * FROM users'' default_limit)
             = Inr \<lparr>columns = [''id'', ''name'', ''messages''],
                    rows = [[SqlInt 1, SqlText ''alice'', SqlInt 5],
                            [SqlInt 2, SqlText ''bob'', SqlInt 3],
                            [SqlInt 3, SqlText ''carol'', SqlInt 12],
                            [SqlInt 4, SqlText ''dave'', SqlInt 0]]\<rparr>"
proof -
  have rep: "(ensure_db ^^ n) None = ensure_db None"
    using starts by (rule ensure_db_repeated)
  obtain db where db: "ensure_db None = Some db" and
    users: "db ''users'' = Some \<lparr>tcolumns = [''id'', ''name'', ''messages''],
       trows = [[SqlInt 1, SqlText ''alice'', SqlInt 5], [SqlInt 2, SqlText ''bob'', SqlInt 3],
                [SqlInt 3, SqlText ''carol'', SqlInt 12], [SqlInt 4, SqlText ''dave'', SqlInt 0]]\<rparr>"
    by (simp add: ensure_db_absent)
  have "execute_fetch execute db ''SELECT * FROM users LIMIT 100'' = Inr seed_result"
    by (rule fetch_seed_rows) (rule engine [of db, OF users])
  then have "snd (query_db execute (Some db) ''SELECT * FROM users'' default_limit) = Inr seed_result"
    using select_users_statement
    by (simp add: query_db_accepted connect_def default_limit_def)
  with rep db show ?thesis
    by (simp add: seed_result_def)
qed

theorem seeded_users_query_witness:
  "(0::nat) < 3
   \<and> (ensure_db ^^ 3) None = ensure_db None
   \<and> snd (query_db select_star_engine ((ensure_db ^^ 3) None) ''SELECT * FROM users'' default_limit)
       = Inr seed_result"
proof -
  have n: "(0::nat) < 3" by simp
  show ?thesis
    unfolding seed_result_def
    using seeded_users_query [of select_star_engine 3, OF select_star_engine_users n] n
    by blast
qed

theorem users_columns_counterexample:
  "map_sum id columns (snd (query_db select_star_engine (ensure_db None) ''SELECT * FROM users'' default_limit))
     = Inr [''id'', ''name'', ''messages'']
   \<and> [''id'', ''name'', ''messages''] \<noteq> [''id'', ''name'', ''message_count'']"
proof -
  have "execute_fetch select_star_engine (the (ensure_db None)) ''SELECT * FROM users LIMIT 100'' = Inr seed_result"
    by (rule fetch_seed_rows) (simp add: select_star_engine_users ensure_db_absent)
  then have "snd (query_db select_star_engine (ensure_db None) ''SELECT * FROM users'' default_limit) = Inr seed_result"
    using select_users_statement
    by (simp add: query_db_accepted connect_def default_limit_def ensure_db_absent)
  then show ?thesis
    by (simp add: seed_result_def)
qed

lemma statement_engine_fetch:
  "execute_fetch statement_engine db sql = Inr \<lparr>columns = [''statement''], rows = [[SqlText sql]]\<rparr>"
  by (simp add: execute_fetch_def statement_engine_def row_get_def)

lemma row_get_key:
  assumes "c \<in> set (map fst r)"
  shows "\<exists>v. row_get r c = Inr v"
proof -
  from assms obtain v where "(c, v) \<in> set r"
    by auto
  then have "\<exists>x. x \<in> set r \<and> ascii_lower (fst x) = ascii_lower c"
    by (intro exI [of _ "(c, v)"]) simp
  then have "find (\<lambda>kv. ascii_lower (fst kv) = ascii_lower c) r \<noteq> None"
    by (simp add: find_None_iff)
  then show ?thesis
    by (auto simp: row_get_def)
qed

lemma traverse_succeeds:
  "(\<And>x. x \<in> set xs \<Longrightarrow> \<exists>y. f x = Inr y) \<Longrightarrow> \<exists>ys. traverse f xs = Inr ys"
proof (induction xs)
  case Nil
  then show ?case by simp
next
  case (Cons x xs)
  then obtain y ys where "f x = Inr y" "traverse f xs = Inr ys"
    by (metis list.set_intros(1) list.set_intros(2))
  then show ?case by simp
qed

lemma execute_fetch_succeeds:
  assumes "execute db sql = Inr fetched"
      and "list_all (\<lambda>r. map fst r = map fst (hd fetched)) fetched"
  shows "\<exists>qr. execute_fetch execute db sql = Inr qr"
proof -
  define cols where "cols = (case fetched of [] \<Rightarrow> [] | r0 # _ \<Rightarrow> map fst r0)"
  have keys: "map fst r = cols" if "r \<in> set fetched" for r
    using that assms(2) by (cases fetched) (auto simp: cols_def list_all_iff)
  have "\<exists>vs. traverse (row_get r) cols = Inr vs" if "r \<in> set fetched" for r
  proof (rule traverse_succeeds)
    fix c
    assume "c \<in> set cols"
    then have "c \<in> set (map fst r)"
      using keys [OF that] by simp
    then show "\<exists>v. row_get r c = Inr v"
      by (rule row_get_key)
  qed
  then obtain data where "traverse (\<lambda>r. traverse (row_get r) cols) fetched = Inr data"
    using traverse_succeeds [of fetched "\<lambda>r. traverse (row_get r) cols"] by blast
  then show ?thesis
    using assms(1) by (simp add: execute_fetch_def cols_def)
qed


text \<open>
  C3 (as amended). \<open>query_db\<close> raises its own \<open>ValueError\<close>, without touching the store,
  for every statement that, once stripped, does not have the prefix \<open>select\<close> in any letter
  case, whatever the limit. For a statement that has it, \<open>query_db\<close> raises nothing of its
  own: when the engine answers the executed statement with rows (all of the same columns,
  as the rows of one cursor are), \<open>query_db\<close> returns a result; when the engine raises an
  error on the executed statement, that error reaches the caller uncaught. A limit outside
  1..1000 is replaced by the default, never rejected.
\<close>

theorem query_db_rejection:
  "(\<not> startswith (lower (strip sql)) ''select'' \<longrightarrow>
      query_db execute st sql limit = (st, Inl (ValueError ''Only SELECT queries are allowed.'')))
   \<and> (startswith (lower (strip sql)) ''select'' \<longrightarrow>
        (\<forall>e. execute (snd (connect st))
                (if contains ''limit'' (lower (strip sql)) then strip sql
                 else rstrip CHR '';'' (strip sql) @ '' LIMIT ''
                      @ str_int (if limit \<le> 0 \<or> 1000 < limit then 100 else limit)) = Inl e
             \<longrightarrow> snd (query_db execute st sql limit) = Inl e)
        \<and> (\<forall>fetched. execute (snd (connect st))
                (if contains ''limit'' (lower (strip sql)) then strip sql
                 else rstrip CHR '';'' (strip sql) @ '' LIMIT ''
                      @ str_int (if limit \<le> 0 \<or> 1000 < limit then 100 else limit)) = Inr fetched
               \<and> list_all (\<lambda>r. map fst r = map fst (hd fetched)) fetched
             \<longrightarrow> (\<exists>qr. snd (query_db execute st sql limit) = Inr qr))
        \<and> (limit \<le> 0 \<or> 1000 < limit \<longrightarrow>
             query_db execute st sql limit = query_db execute st sql default_limit))"
proof (intro conjI impI allI)
  assume "\<not> startswith (lower (strip sql)) ''select''"
  then show "query_db execute st sql limit = (st, Inl (ValueError ''Only SELECT queries are allowed.''))"
    by (rule query_db_rejected)
next
  fix e
  assume "startswith (lower (strip sql)) ''select''"
    and "execute (snd (connect st))
                (if contains ''limit'' (lower (strip sql)) then strip sql
                 else rstrip CHR '';'' (strip sql) @ '' LIMIT ''
                      @ str_int (if limit \<le> 0 \<or> 1000 < limit then 100 else limit)) = Inl e"
  then show "snd (query_db execute st sql limit) = Inl e"
    by (simp add: query_db_accepted execute_fetch_def)
next
  fix fetched
  assume acc: "startswith (lower (strip sql)) ''select''"
    and f: "execute (snd (connect st))
                (if contains ''limit'' (lower (strip sql)) then strip sql
                 else rstrip CHR '';'' (strip sql) @ '' LIMIT ''
                      @ str_int (if limit \<le> 0 \<or> 1000 < limit then 100 else limit)) = Inr fetched
               \<and> list_all (\<lambda>r. map fst r = map fst (hd fetched)) fetched"
  from f have "\<exists>qr. execute_fetch execute (snd (connect st))
                (if contains ''limit'' (lower (strip sql)) then strip sql
                 else rstrip CHR '';'' (strip sql) @ '' LIMIT ''
                      @ str_int (if limit \<le> 0 \<or> 1000 < limit then 100 else limit)) = Inr qr"
    using execute_fetch_succeeds [of execute _ _ fetched] by blast
  with acc show "\<exists>qr. snd (query_db execute st sql limit) = Inr qr"
    by (simp add: query_db_accepted)
next
  assume "startswith (lower (strip sql)) ''select''" and "limit \<le> 0 \<or> 1000 < limit"
  then show "query_db execute st sql limit = query_db execute st sql default_limit"
    by (simp add: query_db_accepted default_limit_def)
qed


lemma select_nosuch_statement:
  "startswith (lower (strip ''SELECT * FROM nosuch'')) ''select''"
  "\<not> contains ''limit'' (lower (strip ''SELECT * FROM nosuch''))"
  "rstrip CHR '';'' (strip ''SELECT * FROM nosuch'') @ '' LIMIT '' @ str_int 100
     = ''SELECT * FROM nosuch LIMIT 100''"
  by (simp_all add: string_evals)

lemma select_star_engine_nosuch:
  "select_star_engine (snd (connect (ensure_db None))) ''SELECT * FROM nosuch LIMIT 100''
     = Inl (OperationalError ''no such table: nosuch'')"
  by (simp add: select_star_engine_def parse_select_star_def isdigit_def nat_of_digits_def
      ensure_db_absent connect_def)

lemma select_star_engine_seeded:
  "select_star_engine (snd (connect (ensure_db None))) ''SELECT * FROM users LIMIT 100''
     = Inr [[(''id'', SqlInt 1), (''name'', SqlText ''alice''), (''messages'', SqlInt 5)],
            [(''id'', SqlInt 2), (''name'', SqlText ''bob''), (''messages'', SqlInt 3)],
            [(''id'', SqlInt 3), (''name'', SqlText ''carol''), (''messages'', SqlInt 12)],
            [(''id'', SqlInt 4), (''name'', SqlText ''dave''), (''messages'', SqlInt 0)]]"
  by (simp add: select_star_engine_def parse_select_star_def isdigit_def nat_of_digits_def
      ensure_db_absent connect_def table_rows_def)

theorem query_db_rejection_witness:
  "query_db select_star_engine (ensure_db None) ''DELETE FROM users'' 5
     = (ensure_db None, Inl (ValueError ''Only SELECT queries are allowed.''))
   \<and> snd (query_db select_star_engine (ensure_db None) ''SELECT * FROM nosuch'' 100)
     = Inl (OperationalError ''no such table: nosuch'')
   \<and> (\<exists>qr. snd (query_db select_star_engine (ensure_db None) ''SELECT * FROM users'' 100) = Inr qr)
   \<and> query_db select_star_engine (ensure_db None) ''SELECT * FROM users'' 2000
     = query_db select_star_engine (ensure_db None) ''SELECT * FROM users'' default_limit"
proof -
  have d: "\<not> startswith (lower (strip ''DELETE FROM users'')) ''select''"
    by (simp add: string_evals)
  have l: "(2000::int) \<le> 0 \<or> 1000 < (2000::int)"
    by simp
  have rejected: "query_db select_star_engine (ensure_db None) ''DELETE FROM users'' 5
     = (ensure_db None, Inl (ValueError ''Only SELECT queries are allowed.''))"
    using query_db_rejection [where sql = "''DELETE FROM users''" and execute = select_star_engine
        and st = "ensure_db None" and limit = 5] d
    by blast
  have raised: "snd (query_db select_star_engine (ensure_db None) ''SELECT * FROM nosuch'' 100)
     = Inl (OperationalError ''no such table: nosuch'')"
    using query_db_rejection [where sql = "''SELECT * FROM nosuch''" and execute = select_star_engine
        and st = "ensure_db None" and limit = 100] select_nosuch_statement select_star_engine_nosuch
    by simp
  have answered: "\<exists>qr. snd (query_db select_star_engine (ensure_db None) ''SELECT * FROM users'' 100) = Inr qr"
    using query_db_rejection [where sql = "''SELECT * FROM users''" and execute = select_star_engine
        and st = "ensure_db None" and limit = 100] select_users_statement select_star_engine_seeded
    by simp
  have replaced: "query_db select_star_engine (ensure_db None) ''SELECT * FROM users'' 2000
     = query_db select_star_engine (ensure_db None) ''SELECT * FROM users'' default_limit"
    using query_db_rejection [where sql = "''SELECT * FROM users''" and execute = select_star_engine
        and st = "ensure_db None" and limit = 2000] select_users_statement(1) l
    by blast
  from rejected raised answered replaced show ?thesis
    by blast
qed

theorem select_on_unknown_table_counterexample:
  "startswith (lower (strip ''SELECT * FROM nosuch'')) ''select''
   \<and> snd (query_db select_star_engine (ensure_db None) ''SELECT * FROM nosuch'' 100)
       = Inl (OperationalError ''no such table: nosuch'')"
proof -
  have "startswith (lower (strip ''SELECT * FROM nosuch'')) ''select''"
       "\<not> contains ''limit'' (lower (strip ''SELECT * FROM nosuch''))"
       "rstrip CHR '';'' (strip ''SELECT * FROM nosuch'') @ '' LIMIT '' @ str_int 100
          = ''SELECT * FROM nosuch LIMIT 100''"
    by (simp_all add: string_evals)
  moreover have "select_star_engine (the (ensure_db None)) ''SELECT * FROM nosuch LIMIT 100''
      = Inl (OperationalError ''no such table: nosuch'')"
    by (simp add: select_star_engine_def parse_select_star_def isdigit_def nat_of_digits_def
        ensure_db_absent)
  ultimately show ?thesis
    by (simp add: query_db_accepted connect_def ensure_db_absent execute_fetch_def)
qed

lemma select_engine_names:
  "select_engine (snd (connect (ensure_db None))) ''SELECT name FROM users LIMIT 2'' =
     Inr [[(''name'', SqlText ''alice'')], [(''name'', SqlText ''bob'')]]"
proof -
  have s: "parse_select_star ''SELECT name FROM users LIMIT 2'' = None"
    by (simp add: parse_select_star_def)
  have w: "words ''SELECT name FROM users LIMIT 2''
             = [''SELECT'', ''name'', ''FROM'', ''users'', ''LIMIT'', ''2'']"
    by (simp add: words_def)
  have p: "parse_item ''name'' = Some (''name'', ''name'')"
    by (simp add: parse_item_def words_def)
  have l: "parse_select_list ''SELECT name FROM users LIMIT 2''
             = Some ([(''name'', ''name'')], ''users'', 2)"
    by (simp add: parse_select_list_def w p isdigit_def nat_of_digits_def)
  show ?thesis
    by (simp add: select_engine_def s l ensure_db_absent connect_def select_columns_def)
qed

lemma select_star_engine_two:
  "select_star_engine (snd (connect (ensure_db None))) ''SELECT * FROM users LIMIT 2''
     = Inr [[(''id'', SqlInt 1), (''name'', SqlText ''alice''), (''messages'', SqlInt 5)],
            [(''id'', SqlInt 2), (''name'', SqlText ''bob''), (''messages'', SqlInt 3)]]"
  by (simp add: select_star_engine_def parse_select_star_def isdigit_def nat_of_digits_def
      ensure_db_absent connect_def table_rows_def)

text \<open>
  C4. For every accepted statement that does not mention \<open>limit\<close>, the number written in the
  appended \<open>LIMIT\<close> clause lies in 1..1000: it is the parameter \<open>limit\<close> when that lies in
  1..1000, and the default 100 when the parameter is below 1 or above 1000.
\<close>

theorem query_db_limit_clamped:
  assumes "startswith (lower (strip sql)) ''select''"
      and "\<not> contains ''limit'' (lower (strip sql))"
  shows "\<exists>n. 1 \<le> n \<and> n \<le> 1000
           \<and> (1 \<le> limit \<and> limit \<le> 1000 \<longrightarrow> n = limit)
           \<and> (limit < 1 \<or> 1000 < limit \<longrightarrow> n = default_limit)
           \<and> query_db execute st sql limit =
               (fst (connect st),
                execute_fetch execute (snd (connect st))
                  (rstrip CHR '';'' (strip sql) @ '' LIMIT '' @ str_int n))"
proof -
  define n where "n = (if limit \<le> 0 \<or> 1000 < limit then 100 else limit)"
  have "1 \<le> n" "n \<le> 1000" "1 \<le> limit \<and> limit \<le> 1000 \<longrightarrow> n = limit"
       "limit < 1 \<or> 1000 < limit \<longrightarrow> n = default_limit"
    by (auto simp: n_def default_limit_def)
  moreover have "query_db execute st sql limit =
     (fst (connect st),
      execute_fetch execute (snd (connect st)) (rstrip CHR '';'' (strip sql) @ '' LIMIT '' @ str_int n))"
    using assms by (simp add: query_db_accepted n_def)
  ultimately show ?thesis by blast
qed

theorem query_db_limit_clamped_witness:
  "snd (query_db statement_engine (ensure_db None) ''SELECT * FROM users;'' 2000)
       = Inr \<lparr>columns = [''statement''], rows = [[SqlText ''SELECT * FROM users LIMIT 100'']]\<rparr>
   \<and> snd (query_db statement_engine (ensure_db None) ''SELECT * FROM users;'' 1000)
       = Inr \<lparr>columns = [''statement''], rows = [[SqlText ''SELECT * FROM users LIMIT 1000'']]\<rparr>
   \<and> snd (query_db statement_engine (ensure_db None) ''SELECT * FROM users;'' 7)
       = Inr \<lparr>columns = [''statement''], rows = [[SqlText ''SELECT * FROM users LIMIT 7'']]\<rparr>
   \<and> snd (query_db statement_engine (ensure_db None) ''SELECT * FROM users;'' 0)
       = Inr \<lparr>columns = [''statement''], rows = [[SqlText ''SELECT * FROM users LIMIT 100'']]\<rparr>
   \<and> snd (query_db select_star_engine (ensure_db None) ''SELECT * FROM users;'' 2)
       = Inr \<lparr>columns = [''id'', ''name'', ''messages''],
              rows = [[SqlInt 1, SqlText ''alice'', SqlInt 5], [SqlInt 2, SqlText ''bob'', SqlInt 3]]\<rparr>
   \<and> query_db select_star_engine (ensure_db None) ''SELECT * FROM users;'' 2000 =
     (fst (connect (ensure_db None)),
      execute_fetch select_star_engine (snd (connect (ensure_db None))) ''SELECT * FROM users LIMIT 100'')
   \<and> query_db select_star_engine (ensure_db None) ''SELECT * FROM users;'' 7 =
     (fst (connect (ensure_db None)),
      execute_fetch select_star_engine (snd (connect (ensure_db None))) ''SELECT * FROM users LIMIT 7'')"
proof -
  have a: "startswith (lower (strip ''SELECT * FROM users;'')) ''select''"
    and b: "\<not> contains ''limit'' (lower (strip ''SELECT * FROM users;''))"
    and c: "rstrip CHR '';'' (strip ''SELECT * FROM users;'') = ''SELECT * FROM users''"
    and d: "str_int 100 = ''100''" "str_int 7 = ''7''" "str_int 1000 = ''1000''" "str_int 2 = ''2''"
    by (simp_all add: string_evals)
  have two: "execute_fetch select_star_engine (snd (connect (ensure_db None))) ''SELECT * FROM users LIMIT 2''
      = Inr \<lparr>columns = [''id'', ''name'', ''messages''],
              rows = [[SqlInt 1, SqlText ''alice'', SqlInt 5], [SqlInt 2, SqlText ''bob'', SqlInt 3]]\<rparr>"
    by (simp add: execute_fetch_def select_star_engine_two row_get_def ascii_lower_def)
  show ?thesis
    using query_db_limit_clamped [OF a b, of 2000 select_star_engine "ensure_db None"]
      query_db_limit_clamped [OF a b, of 7 select_star_engine "ensure_db None"]
      query_db_limit_clamped [OF a b, of 2 select_star_engine "ensure_db None"]
      query_db_limit_clamped [OF a b, of 2000 statement_engine "ensure_db None"]
      query_db_limit_clamped [OF a b, of 1000 statement_engine "ensure_db None"]
      query_db_limit_clamped [OF a b, of 7 statement_engine "ensure_db None"]
      query_db_limit_clamped [OF a b, of 0 statement_engine "ensure_db None"] c d two
    by (auto simp: default_limit_def statement_engine_fetch)
qed

lemma appended_limit_differs:
  assumes "\<not> contains ''limit'' (lower s)"
  shows "rstrip CHR '';'' s @ '' LIMIT '' @ n \<noteq> s"
proof
  assume eq: "rstrip CHR '';'' s @ '' LIMIT '' @ n = s"
  have "lower (rstrip CHR '';'' s @ '' LIMIT '' @ n)
          = lower (rstrip CHR '';'' s @ '' '') @ ''limit'' @ lower ('' '' @ n)"
    by (simp add: lower_def lower_char_def isupper_def)
  then have "lower s = lower (rstrip CHR '';'' s @ '' '') @ ''limit'' @ lower ('' '' @ n)"
    unfolding eq .
  then have "contains ''limit'' (lower s)"
    unfolding contains_iff by blast
  with assms show False by simp
qed

text \<open>
  C5. For every accepted statement, \<open>query_db\<close> executes the stripped statement with its
  trailing semicolons removed and a \<open>LIMIT\<close> clause appended (a text different from the
  stripped statement) if the lower-cased statement does not contain \<open>limit\<close>, and the
  stripped statement itself, whatever the parameter \<open>limit\<close>, if it does; so a statement
  that only names a column \<open>limit_reached\<close> runs without any bound.
\<close>

theorem query_db_limit_appended:
  assumes "startswith (lower (strip sql)) ''select''"
  shows "(\<not> contains ''limit'' (lower (strip sql)) \<longrightarrow>
            query_db execute st sql limit =
              (fst (connect st),
               execute_fetch execute (snd (connect st))
                 (rstrip CHR '';'' (strip sql) @ '' LIMIT ''
                  @ str_int (if limit \<le> 0 \<or> 1000 < limit then 100 else limit)))
            \<and> rstrip CHR '';'' (strip sql) @ '' LIMIT ''
                  @ str_int (if limit \<le> 0 \<or> 1000 < limit then 100 else limit) \<noteq> strip sql)
         \<and> (contains ''limit'' (lower (strip sql)) \<longrightarrow>
            query_db execute st sql limit =
              (fst (connect st), execute_fetch execute (snd (connect st)) (strip sql)))"
  using assms appended_limit_differs [of "strip sql"]
  by (simp add: query_db_accepted)

theorem query_db_limit_appended_witness:
  "snd (query_db statement_engine (ensure_db None) ''SELECT limit_reached FROM users'' 5)
       = Inr \<lparr>columns = [''statement''], rows = [[SqlText ''SELECT limit_reached FROM users'']]\<rparr>
   \<and> snd (query_db statement_engine (ensure_db None) ''SELECT name FROM users;'' 5)
       = Inr \<lparr>columns = [''statement''], rows = [[SqlText ''SELECT name FROM users LIMIT 5'']]\<rparr>
   \<and> snd (query_db select_engine (ensure_db None) ''SELECT name FROM users;'' 2)
       = Inr \<lparr>columns = [''name''], rows = [[SqlText ''alice''], [SqlText ''bob'']]\<rparr>"
proof -
  have a: "startswith (lower (strip ''SELECT limit_reached FROM users'')) ''select''"
    and b: "contains ''limit'' (lower (strip ''SELECT limit_reached FROM users''))"
    and c: "strip ''SELECT limit_reached FROM users'' = ''SELECT limit_reached FROM users''"
    and d: "startswith (lower (strip ''SELECT name FROM users;'')) ''select''"
    and e: "\<not> contains ''limit'' (lower (strip ''SELECT name FROM users;''))"
    and f: "rstrip CHR '';'' (strip ''SELECT name FROM users;'') @ '' LIMIT '' @ str_int 5
              = ''SELECT name FROM users LIMIT 5''"
           "rstrip CHR '';'' (strip ''SELECT name FROM users;'') @ '' LIMIT '' @ str_int 2
              = ''SELECT name FROM users LIMIT 2''"
    by (simp_all add: string_evals)
  have two: "execute_fetch select_engine (snd (connect (ensure_db None))) ''SELECT name FROM users LIMIT 2''
      = Inr \<lparr>columns = [''name''], rows = [[SqlText ''alice''], [SqlText ''bob'']]\<rparr>"
    by (simp add: execute_fetch_def select_engine_names row_get_def)
  show ?thesis
    using query_db_limit_appended [OF a, of statement_engine "ensure_db None" 5] b c
      query_db_limit_appended [OF d, of statement_engine "ensure_db None" 5] e f
      query_db_limit_appended [OF d, of select_engine "ensure_db None" 2] two
    by (simp add: statement_engine_fetch)
qed

text \<open>
  What holds for every result: each row has as many values as there are columns, and the
  value at position \<open>j\<close> of row \<open>i\<close> is what the \<open>i\<close>-th fetched row holds under the
  \<open>j\<close>-th column name. When the column names are distinct (letter case ignored), that is
  the value at position \<open>j\<close> of the fetched row (\<open>execute_fetch_distinct_names\<close>).
\<close>

lemma query_result_rows_by_name:
  assumes "snd (query_db execute st sql limit) = Inr qr"
  shows "list_all (\<lambda>row. length row = length (columns qr)) (rows qr)
         \<and> (\<exists>stmt fetched. execute (snd (connect st)) stmt = Inr fetched
              \<and> length fetched = length (rows qr)
              \<and> (\<forall>i < length (rows qr). \<forall>j < length (columns qr).
                    row_get (fetched ! i) (columns qr ! j) = Inr (rows qr ! i ! j)))"
proof -
  have acc: "startswith (lower (strip sql)) ''select''"
    using assms by (cases "startswith (lower (strip sql)) ''select''") (simp_all add: query_db_rejected)
  then obtain stmt where "execute_fetch execute (snd (connect st)) stmt = Inr qr"
    using assms by (simp add: query_db_accepted)
  from execute_fetch_aligned [OF this] obtain fetched where
    f: "execute (snd (connect st)) stmt = Inr fetched"
    and len: "length (rows qr) = length fetched"
    and al: "\<forall>i < length fetched. length (rows qr ! i) = length (columns qr)
                \<and> (\<forall>j < length (columns qr). row_get (fetched ! i) (columns qr ! j) = Inr (rows qr ! i ! j))"
    by blast
  have "list_all (\<lambda>row. length row = length (columns qr)) (rows qr)"
    using len al by (simp add: list_all_length)
  moreover have "\<exists>stmt fetched. execute (snd (connect st)) stmt = Inr fetched
              \<and> length fetched = length (rows qr)
              \<and> (\<forall>i < length (rows qr). \<forall>j < length (columns qr).
                    row_get (fetched ! i) (columns qr ! j) = Inr (rows qr ! i ! j))"
    using f len al by (intro exI [of _ stmt] exI [of _ fetched]) simp
  ultimately show ?thesis by blast
qed

lemma execute_fetch_repeated_key:
  "execute db sql = Inr [[(k, v), (k, w)]] \<Longrightarrow>
   execute_fetch execute db sql = Inr \<lparr>columns = [k, k], rows = [[v, v]]\<rparr>"
  by (simp add: execute_fetch_def row_get_def)

lemma find_distinct_key:
  "distinct (map (\<lambda>kv. f (fst kv)) r) \<Longrightarrow> kv \<in> set r \<Longrightarrow>
   find (\<lambda>x. f (fst x) = f (fst kv)) r = Some kv"
proof (induction r)
  case Nil
  then show ?case by simp
next
  case (Cons a r)
  show ?case
  proof (cases "a = kv")
    case True
    then show ?thesis by simp
  next
    case False
    with Cons.prems have in_r: "kv \<in> set r" and "f (fst a) \<notin> (\<lambda>kv. f (fst kv)) ` set r"
      by auto
    then have "f (fst a) \<noteq> f (fst kv)"
      by auto
    with Cons in_r show ?thesis by simp
  qed
qed

lemma traverse_map:
  "(\<And>x. x \<in> set xs \<Longrightarrow> f x = Inr (g x)) \<Longrightarrow> traverse f xs = Inr (map g xs)"
  by (induction xs) auto

lemma traverse_of_map:
  "traverse f (map g xs) = traverse (\<lambda>x. f (g x)) xs"
  by (induction xs) (auto split: sum.splits)

lemma row_values_by_position:
  assumes "distinct (map ascii_lower (map fst r))"
  shows "traverse (row_get r) (map fst r) = Inr (map snd r)"
proof -
  have d: "distinct (map (\<lambda>kv. ascii_lower (fst kv)) r)"
    using assms by (simp add: comp_def)
  have "row_get r (fst kv) = Inr (snd kv)" if "kv \<in> set r" for kv
    using find_distinct_key [OF d that] by (simp add: row_get_def)
  then have "traverse (\<lambda>kv. row_get r (fst kv)) r = Inr (map snd r)"
    by (rule traverse_map)
  then show ?thesis
    by (simp add: traverse_of_map)
qed

lemma execute_fetch_distinct_names:
  assumes "execute db sql = Inr fetched"
      and "list_all (\<lambda>r. map fst r = map fst (hd fetched)) fetched"
      and "distinct (map ascii_lower (map fst (hd fetched)))"
      and "fetched \<noteq> []"
  shows "execute_fetch execute db sql
           = Inr \<lparr>columns = map fst (hd fetched), rows = map (map snd) fetched\<rparr>"
proof -
  have "traverse (row_get r) (map fst (hd fetched)) = Inr (map snd r)" if "r \<in> set fetched" for r
  proof -
    from that assms(2) have k: "map fst r = map fst (hd fetched)"
      by (simp add: list_all_iff)
    with assms(3) have "distinct (map ascii_lower (map fst r))"
      by simp
    from row_values_by_position [OF this] k show ?thesis
      by simp
  qed
  then have "traverse (\<lambda>r. traverse (row_get r) (map fst (hd fetched))) fetched = Inr (map (map snd) fetched)"
    by (rule traverse_map)
  with assms(1,4) show ?thesis
    by (cases fetched) (simp_all add: execute_fetch_def)
qed

lemma select_engine_aliased:
  "select_engine (the (ensure_db None)) ''SELECT name, messages AS name FROM users LIMIT 100'' =
     Inr [[(''name'', SqlText ''alice''), (''name'', SqlInt 5)],
          [(''name'', SqlText ''bob''), (''name'', SqlInt 3)],
          [(''name'', SqlText ''carol''), (''name'', SqlInt 12)],
          [(''name'', SqlText ''dave''), (''name'', SqlInt 0)]]"
proof -
  have s: "parse_select_star ''SELECT name, messages AS name FROM users LIMIT 100'' = None"
    by (simp add: parse_select_star_def)
  have w: "words ''SELECT name, messages AS name FROM users LIMIT 100''
             = [''SELECT'', ''name,'', ''messages'', ''AS'', ''name'', ''FROM'', ''users'', ''LIMIT'', ''100'']"
    by (simp add: words_def)
  have i: "split_str CHR '','' (join '' '' [''name,'', ''messages'', ''AS'', ''name''])
             = [''name'', '' messages AS name'']"
    by simp
  have p: "parse_item ''name'' = Some (''name'', ''name'')"
          "parse_item '' messages AS name'' = Some (''messages'', ''name'')"
    by (simp_all add: parse_item_def words_def)
  have l: "parse_select_list ''SELECT name, messages AS name FROM users LIMIT 100''
             = Some ([(''name'', ''name''), (''messages'', ''name'')], ''users'', 100)"
    by (simp add: parse_select_list_def w i p isdigit_def nat_of_digits_def)
  show ?thesis
    by (simp add: select_engine_def s l ensure_db_absent select_columns_def)
qed

text \<open>
  C9 (where the code departs from it). The statement
  \<open>SELECT name, messages AS name FROM users\<close> has two result columns of the same name. For
  it \<open>query_db\<close> returns, in every row, the value of the first column at both positions:
  each value is read back from the fetched row by its column name (\<open>r[c]\<close>), which finds the
  first column of that name, so the second value of a row is not the value of the second
  column and the message counts are lost.
\<close>

theorem query_db_repeated_column_name:
  assumes "execute db ''SELECT name, messages AS name FROM users LIMIT 100'' =
             Inr [[(''name'', SqlText ''alice''), (''name'', SqlInt 5)],
                  [(''name'', SqlText ''bob''), (''name'', SqlInt 3)],
                  [(''name'', SqlText ''carol''), (''name'', SqlInt 12)],
                  [(''name'', SqlText ''dave''), (''name'', SqlInt 0)]]"
  shows "snd (query_db execute (Some db) ''SELECT name, messages AS name FROM users'' default_limit)
           = Inr \<lparr>columns = [''name'', ''name''],
                  rows = [[SqlText ''alice'', SqlText ''alice''], [SqlText ''bob'', SqlText ''bob''],
                          [SqlText ''carol'', SqlText ''carol''], [SqlText ''dave'', SqlText ''dave'']]\<rparr>"
proof -
  have "startswith (lower (strip ''SELECT name, messages AS name FROM users'')) ''select''"
       "\<not> contains ''limit'' (lower (strip ''SELECT name, messages AS name FROM users''))"
       "rstrip CHR '';'' (strip ''SELECT name, messages AS name FROM users'') @ '' LIMIT '' @ str_int 100
          = ''SELECT name, messages AS name FROM users LIMIT 100''"
    by (simp_all add: string_evals)
  moreover have "execute_fetch execute db ''SELECT name, messages AS name FROM users LIMIT 100''
      = Inr \<lparr>columns = [''name'', ''name''],
                  rows = [[SqlText ''alice'', SqlText ''alice''], [SqlText ''bob'', SqlText ''bob''],
                          [SqlText ''carol'', SqlText ''carol''], [SqlText ''dave'', SqlText ''dave'']]\<rparr>"
    using assms by (simp add: execute_fetch_def row_get_def)
  ultimately show ?thesis
    by (simp add: query_db_accepted connect_def default_limit_def)
qed

theorem query_db_repeated_column_name_witness:
  "snd (query_db select_engine (ensure_db None) ''SELECT name, messages AS name FROM users'' default_limit)
     = Inr \<lparr>columns = [''name'', ''name''],
            rows = [[SqlText ''alice'', SqlText ''alice''], [SqlText ''bob'', SqlText ''bob''],
                    [SqlText ''carol'', SqlText ''carol''], [SqlText ''dave'', SqlText ''dave'']]\<rparr>"
proof -
  obtain db where db: "ensure_db None = Some db" "the (ensure_db None) = db"
    by (simp add: ensure_db_absent)
  from select_engine_aliased db
  have "select_engine db ''SELECT name, messages AS name FROM users LIMIT 100'' =
     Inr [[(''name'', SqlText ''alice''), (''name'', SqlInt 5)],
          [(''name'', SqlText ''bob''), (''name'', SqlInt 3)],
          [(''name'', SqlText ''carol''), (''name'', SqlInt 12)],
          [(''name'', SqlText ''dave''), (''name'', SqlInt 0)]]"
    by simp
  from query_db_repeated_column_name [of select_engine db, OF this] db show ?thesis
    by simp
qed

text \<open>
  C10. For every accepted statement on which the engine fetches no row, \<open>query_db\<close>
  returns no column names and no rows; and any result of \<open>query_db\<close> without rows is
  without columns, the names being taken from the first fetched row.
\<close>

theorem query_db_no_rows_no_columns:
  assumes "startswith (lower (strip sql)) ''select''"
  shows "(execute (snd (connect st))
            (if contains ''limit'' (lower (strip sql)) then strip sql
             else rstrip CHR '';'' (strip sql) @ '' LIMIT ''
                  @ str_int (if limit \<le> 0 \<or> 1000 < limit then 100 else limit)) = Inr []
          \<longrightarrow> snd (query_db execute st sql limit) = Inr \<lparr>columns = [], rows = []\<rparr>)
         \<and> (\<forall>qr. snd (query_db execute st sql limit) = Inr qr \<and> rows qr = [] \<longrightarrow> columns qr = [])"
proof (intro conjI impI allI)
  assume "execute (snd (connect st))
            (if contains ''limit'' (lower (strip sql)) then strip sql
             else rstrip CHR '';'' (strip sql) @ '' LIMIT ''
                  @ str_int (if limit \<le> 0 \<or> 1000 < limit then 100 else limit)) = Inr []"
  then show "snd (query_db execute st sql limit) = Inr \<lparr>columns = [], rows = []\<rparr>"
    using assms by (simp add: query_db_accepted execute_fetch_def)
next
  fix qr
  assume a: "snd (query_db execute st sql limit) = Inr qr \<and> rows qr = []"
  then obtain stmt where "execute_fetch execute (snd (connect st)) stmt = Inr qr"
    using assms by (auto simp: query_db_accepted)
  from execute_fetch_aligned [OF this] a show "columns qr = []"
    by auto
qed

theorem query_db_no_rows_no_columns_witness:
  "snd (query_db select_star_engine (ensure_db None) ''SELECT * FROM users LIMIT 0'' 100)
     = Inr \<lparr>columns = [], rows = []\<rparr>"
proof -
  have a: "startswith (lower (strip ''SELECT * FROM users LIMIT 0'')) ''select''"
    and b: "contains ''limit'' (lower (strip ''SELECT * FROM users LIMIT 0''))"
    and c: "strip ''SELECT * FROM users LIMIT 0'' = ''SELECT * FROM users LIMIT 0''"
    by (simp_all add: string_evals)
  have d: "select_star_engine (snd (connect (ensure_db None))) ''SELECT * FROM users LIMIT 0'' = Inr []"
    by (simp add: select_star_engine_def parse_select_star_def isdigit_def nat_of_digits_def
        ensure_db_absent connect_def)
  show ?thesis
    using query_db_no_rows_no_columns [OF a, of select_star_engine "ensure_db None" 100] b c d
    by simp
qed

section \<open>Properties of \<open>safe_path\<close> and \<open>read_file\<close>\<close>

lemma safe_path_expanduser_error:
  "expanduser env (parse_path s) = Inl e \<Longrightarrow> safe_path env s = Inl e"
  by (simp add: safe_path_def)

lemma safe_path_resolve_error:
  "expanduser env (parse_path s) = Inr p \<Longrightarrow>
   resolve env (if is_absolute p then p else joinpath (ROOT_DIR env) p) = Inl e \<Longrightarrow>
   safe_path env s = Inr None"
  by (simp add: safe_path_def)

lemma safe_path_inside:
  "safe_path env s = Inr (Some p) \<Longrightarrow> p = ROOT_DIR env \<or> ROOT_DIR env \<in> set (parents p)"
  by (auto simp: safe_path_def split: sum.splits if_splits)

lemma safe_path_resolved:
  "safe_path env s = Inr (Some p) \<Longrightarrow>
   \<exists>q. expanduser env (parse_path s) = Inr q
      \<and> resolve env (if is_absolute q then q else joinpath (ROOT_DIR env) q) = Inr p"
  by (auto simp: safe_path_def split: sum.splits if_splits)

lemma safe_path_accepts:
  "expanduser env (parse_path s) = Inr q \<Longrightarrow>
   resolve env (if is_absolute q then q else joinpath (ROOT_DIR env) q) = Inr p \<Longrightarrow>
   safe_path env s = (if p = ROOT_DIR env \<or> ROOT_DIR env \<in> set (parents p) then Inr (Some p) else Inr None)"
  by (auto simp: safe_path_def)

lemma in_parents_iff:
  "r \<in> set (parents p) \<longleftrightarrow>
     proot r = proot p \<and> (\<exists>rest. rest \<noteq> [] \<and> pnames p = pnames r @ rest)"
proof
  assume "r \<in> set (parents p)"
  then obtain k where k: "k < length (pnames p)" and r: "r = \<lparr>proot = proot p, pnames = take k (pnames p)\<rparr>"
    by (auto simp: parents_def)
  have "pnames p = pnames r @ drop k (pnames p)"
    using r by simp
  moreover have "drop k (pnames p) \<noteq> []"
    using k by simp
  moreover have "proot r = proot p"
    using r by simp
  ultimately show "proot r = proot p \<and> (\<exists>rest. rest \<noteq> [] \<and> pnames p = pnames r @ rest)"
    by blast
next
  assume a: "proot r = proot p \<and> (\<exists>rest. rest \<noteq> [] \<and> pnames p = pnames r @ rest)"
  then obtain rest where rest: "rest \<noteq> []" "pnames p = pnames r @ rest"
    by auto
  then have len: "length (pnames r) < length (pnames p)"
    and tk: "take (length (pnames r)) (pnames p) = pnames r"
    by auto
  have "r = \<lparr>proot = proot p, pnames = take (length (pnames r)) (pnames p)\<rparr>"
    using a tk by simp
  moreover have "length (pnames r) \<in> set (rev [0..<length (pnames p)])"
    using len by simp
  ultimately show "r \<in> set (parents p)"
    unfolding parents_def set_map by (rule image_eqI)
qed

lemma safe_path_absolute:
  "safe_path env s = Inr (Some p) \<Longrightarrow> is_absolute (ROOT_DIR env) \<Longrightarrow> is_absolute p"
  by (drule safe_path_inside) (auto simp: in_parents_iff is_absolute_def)

lemma read_file_rejected:
  "safe_path env s = Inr None \<Longrightarrow> read_file env s max_bytes = Inr []"
  by (simp add: read_file_def)

lemma read_file_missing:
  "safe_path env s = Inr (Some p) \<Longrightarrow> path_exists env p = Inr False \<Longrightarrow>
   read_file env s max_bytes = Inr []"
  by (simp add: read_file_def)

lemma read_file_not_a_file:
  "safe_path env s = Inr (Some p) \<Longrightarrow> path_exists env p = Inr True \<Longrightarrow>
   is_file env p = Inr False \<Longrightarrow> read_file env s max_bytes = Inr []"
  by (simp add: read_file_def)

lemma read_file_test_raises:
  "safe_path env s = Inr (Some p) \<Longrightarrow> path_exists env p = Inl e \<Longrightarrow>
   read_file env s max_bytes = Inl e"
  by (simp add: read_file_def)

lemma read_file_text:
  "safe_path env s = Inr (Some p) \<Longrightarrow> path_exists env p = Inr True \<Longrightarrow>
   is_file env p = Inr True \<Longrightarrow> read_text env p = Inr text \<Longrightarrow> 0 \<le> max_bytes \<Longrightarrow>
   read_file env s max_bytes = Inr (take (nat max_bytes) text)"
  by (simp add: read_file_def slice_to_def)

lemma read_file_error_string:
  "safe_path env s = Inr (Some p) \<Longrightarrow> path_exists env p = Inr True \<Longrightarrow>
   is_file env p = Inr True \<Longrightarrow> read_text env p = Inl e \<Longrightarrow>
   read_file env s max_bytes = Inr (''ERROR: '' @ str_exn e)"
  by (simp add: read_file_def)

lemma slice_to_negative:
  "n < 0 \<Longrightarrow> slice_to xs n = take (length xs - nat (- n)) xs"
proof -
  assume "n < 0"
  then have "nat (int (length xs) + n) = length xs - nat (- n)"
    by linarith
  with \<open>n < 0\<close> show ?thesis
    by (simp add: slice_to_def)
qed

lemma parse_examples:
  "parse_path ''/etc/passwd'' = \<lparr>proot = ''/'', pnames = [''etc'', ''passwd'']\<rparr>"
  "parse_path ''../../secret'' = \<lparr>proot = [], pnames = [''..'', ''..'', ''secret'']\<rparr>"
  "parse_path ''.'' = \<lparr>proot = [], pnames = []\<rparr>"
  "parse_path ''notes.txt'' = \<lparr>proot = [], pnames = [''notes.txt'']\<rparr>"
  "parse_path ''~nosuchuser/notes.txt'' = \<lparr>proot = [], pnames = [''~nosuchuser'', ''notes.txt'']\<rparr>"
  "parse_path [CHR ''a'', CHR 0x00] = \<lparr>proot = [], pnames = [[CHR ''a'', CHR 0x00]]\<rparr>"
  by (simp_all add: parse_path_def startswith_def)

lemmas app_evals = safe_path_def expanduser_def startswith_def is_absolute_def joinpath_def
  parents_def upt_rec app_env_def app_root_def notes_txt_def

lemma safe_path_examples:
  "safe_path app_env ''/etc/passwd'' = Inr None"
  "safe_path app_env ''../../secret'' = Inr None"
  "safe_path app_env ''.'' = Inr (Some app_root)"
  "safe_path app_env ''notes.txt'' = Inr (Some notes_txt)"
  "safe_path app_env [CHR ''a'', CHR 0x00] = Inr None"
  by (simp_all add: parse_examples app_evals)

text \<open>
  C1 (where the code departs from it). For the path \<open>~nosuchuser/notes.txt\<close>, whose user has
  no home directory, \<open>_safe_path\<close> neither returns a path nor rejects with \<open>None\<close>: the
  \<open>RuntimeError\<close> of \<open>expanduser\<close>, raised before the \<open>try\<close>, leaves the function.
\<close>

theorem safe_path_unknown_user_raises:
  "gethomedir app_env ''nosuchuser'' = None
   \<and> safe_path app_env ''~nosuchuser/notes.txt''
       = Inl (RuntimeError ''Could not determine home directory.'')"
  by (simp add: parse_examples app_evals)

text \<open>
  C6 (where the code departs from it). When the path is accepted and names a readable
  file, \<open>read_file\<close> with a negative \<open>max_bytes\<close> returns the text without its last
  \<open>- max_bytes\<close> characters (the slice \<open>text[:max_bytes]\<close> counts from the end) instead of
  the text cut to \<open>max_bytes\<close>: for \<open>notes.txt\<close> holding \<open>abc\<close> and \<open>max_bytes = -1\<close> it
  returns \<open>ab\<close>.
\<close>

theorem read_file_negative_max_bytes:
  assumes "safe_path env s = Inr (Some p)"
      and "path_exists env p = Inr True"
      and "is_file env p = Inr True"
      and "read_text env p = Inr text"
      and "max_bytes < 0"
  shows "read_file env s max_bytes = Inr (take (length text - nat (- max_bytes)) text)"
  using assms by (simp add: read_file_def slice_to_negative)

theorem read_file_negative_max_bytes_witness:
  "safe_path app_env ''notes.txt'' = Inr (Some notes_txt)
   \<and> read_text app_env notes_txt = Inr ''abc''
   \<and> read_file app_env ''notes.txt'' (- 1) = Inr ''ab''"
proof -
  have sp: "safe_path app_env ''notes.txt'' = Inr (Some notes_txt)"
    by (simp add: safe_path_examples)
  have ex: "path_exists app_env notes_txt = Inr True"
    and isf: "is_file app_env notes_txt = Inr True"
    and rt: "read_text app_env notes_txt = Inr ''abc''"
    by (simp_all add: app_env_def)
  have neg: "(- 1 :: int) < 0"
    by simp
  show ?thesis
    using read_file_negative_max_bytes [OF sp ex isf rt neg] sp rt by simp
qed

end
